theory Spec2Isabelle
  imports Complex_Main
begin

section \<open>Numbers, vectors and the interpolation helpers\<close>

text \<open>
  The program is TypeScript on three.js. A JavaScript \<open>number\<close> is modelled as a
  \<^typ>\<open>real\<close>: the scalar arithmetic of the program is exact, there is no rounding and
  no NaN. A \<open>Vector3\<close> is a triple of numbers. The interpolation of vectors and
  quaternions is done by the library in double precision; it is a parameter of the model
  (the record \<open>three\<close> below) and nothing is assumed about its results.
\<close>

type_synonym vec3 = "real \<times> real \<times> real"

text \<open>
  \<open>THREE.MathUtils.lerp(x, y, t)\<close>, the call of \<open>App.tsx\<close> lines 162 and 265:
  \<open>(1 - t) * x + t * y\<close>, with no clamping of \<open>t\<close>.
\<close>

definition lerp :: "real \<Rightarrow> real \<Rightarrow> real \<Rightarrow> real" where
  "lerp x y t = (1 - t) * x + t * y"

definition setScalar :: "real \<Rightarrow> vec3" where
  "setScalar s = (s, s, s)"

text \<open>
  The smoothing step as the specification words it (section 4.2):
  \<open>previous + (target - previous) * rate\<close>.
\<close>

definition smooth_spec :: "real \<Rightarrow> real \<Rightarrow> real \<Rightarrow> real" where
  "smooth_spec previous target rate = previous + (target - previous) * rate"

section \<open>Shared data (\<open>types.ts\<close>, \<open>App.tsx\<close>)\<close>

datatype InteractionMode = MOUSE | GESTURE

record PhotoData =
  photoId :: string
  url :: string
  photoPosition :: vec3
  photoRotation :: vec3

text \<open>
  The argument of \<open>onUpdate\<close> (\<open>GestureControllerProps\<close>). The optional fields
  \<open>cursor?\<close> and \<open>isPinching?\<close> are \<open>None\<close> when the object has no such key.
\<close>

record GestureData =
  rotation :: real
  dispersion :: real
  isHandDetected :: bool
  cursor :: "(real \<times> real) option"
  isPinching :: "bool option"

text \<open>
  \<open>gestureRef.current\<close> (\<open>App.tsx\<close> lines 599-606): the gesture fields plus
  \<open>focusedId?: string | null\<close>; \<open>None\<close> stands for \<open>null\<close> and \<open>undefined\<close>.
\<close>

record GestureRef = GestureData +
  focusedId :: "string option"

definition initialGestureRef :: GestureRef where
  "initialGestureRef =
     \<lparr>rotation = 0, dispersion = 0, isHandDetected = False, cursor = None,
      isPinching = None, focusedId = None\<rparr>"

text \<open>JavaScript truthiness of \<open>focusedId\<close> and of \<open>isPinching\<close>.\<close>

fun truthyId :: "string option \<Rightarrow> bool" where
  "truthyId None = False"
| "truthyId (Some s) = (s \<noteq> [])"

fun truthyFlag :: "bool option \<Rightarrow> bool" where
  "truthyFlag None = False"
| "truthyFlag (Some b) = b"

section \<open>Focus progress (\<open>PhotoGroup\<close>, \<open>App.tsx\<close> lines 258-270)\<close>

text \<open>
  One per-frame update of \<open>progress.current\<close>: the target is 1 when
  \<open>focusedId === photo.id\<close> and 0 otherwise, the value moves by
  \<open>lerp(progress, target, 10 * delta)\<close> and snaps to the target when it is closer
  than 0.01.
\<close>

definition targetProgress :: "string option \<Rightarrow> string \<Rightarrow> real" where
  "targetProgress fid pid = (if fid = Some pid then 1 else 0)"

definition snap :: "real \<Rightarrow> real \<Rightarrow> real" where
  "snap p target = (if \<bar>p - target\<bar> < 0.01 then target else p)"

definition updateProgress :: "string option \<Rightarrow> string \<Rightarrow> real \<Rightarrow> real \<Rightarrow> real" where
  "updateProgress fid pid delta p =
     snap (lerp p (targetProgress fid pid) (10 * delta)) (targetProgress fid pid)"

text \<open>
  The progress of the photo \<open>pid\<close> after a sequence of render frames, each given by
  the \<open>focusedId\<close> it reads and its \<open>delta\<close>, from \<open>useRef(0)\<close>.
\<close>

fun progressFrom :: "real \<Rightarrow> string \<Rightarrow> (string option \<times> real) list \<Rightarrow> real" where
  "progressFrom p pid [] = p"
| "progressFrom p pid ((fid, delta) # fs) = progressFrom (updateProgress fid pid delta p) pid fs"

definition progressAfter :: "string \<Rightarrow> (string option \<times> real) list \<Rightarrow> real" where
  "progressAfter pid fs = progressFrom 0 pid fs"

section \<open>Dispersion uniform (\<open>ChristmasTreeParticles\<close>, \<open>App.tsx\<close> lines 153-168)\<close>

text \<open>
  The per-frame update of \<open>uDispersion.value\<close>: a \<open>lerp\<close> toward the gesture
  dispersion (0 in mouse mode) with the fixed factor 0.1, and nothing after it.
\<close>

definition particlesFrame :: "InteractionMode \<Rightarrow> 'a GestureRef_scheme \<Rightarrow> real \<Rightarrow> real" where
  "particlesFrame mode gref uDispersion =
     lerp uDispersion (if mode = GESTURE then dispersion gref else 0) 0.1"

section \<open>Focus state machine (\<open>PhotoGroup\<close>, \<open>App.tsx\<close> lines 251-359)\<close>

text \<open>
  Orientations are three.js quaternions. The vector and quaternion algebra is library code
  outside the repository, computed in double precision, so it is a parameter of the model:
  the type \<open>'q\<close> of quaternions, the identity, \<open>Quaternion.setFromEuler\<close>,
  \<open>Quaternion.slerpQuaternions\<close> and \<open>Vector3.lerpVectors\<close>. The library computes
  \<open>lerpVectors(v1, v2, alpha)\<close> as \<open>v1 + (v2 - v1) * alpha\<close> with a rounding after
  each operation, so even at \<open>alpha = 1\<close> its result need not be \<open>v2\<close> and can change
  with \<open>v1\<close> in the last bits; no law of these functions is assumed.
\<close>

record 'q three =
  identityQuat :: 'q
  setFromEuler :: "vec3 \<Rightarrow> 'q"
  slerpQuaternions :: "'q \<Rightarrow> 'q \<Rightarrow> real \<Rightarrow> 'q"
  lerpVectors :: "vec3 \<Rightarrow> vec3 \<Rightarrow> real \<Rightarrow> vec3"

text \<open>\<open>lockedState.current\<close> when it is not \<open>null\<close>.\<close>

record 'q LockedState =
  lockPos :: vec3
  lockQuat :: 'q
  lockScale :: vec3

text \<open>The transform of \<open>groupRef.current\<close> that the renderer reads.\<close>

record 'q Transform =
  position :: vec3
  quaternion :: 'q
  scale :: vec3

record 'q PhotoGroupState =
  progress :: real
  lockedState :: "'q LockedState option"
  groupPose :: "'q Transform"

text \<open>
  The callback runs its body only when \<open>groupRef.current\<close> is set; the model is the body,
  for a mounted group, whose transform is the field \<open>groupPose\<close>.

  What one call of the \<open>useFrame\<close> callback reads: \<open>delta\<close>, the interaction mode,
  \<open>gestureRef.current\<close>, and \<open>lockTarget\<close>, the pair \<open>(lockedPos, lockedQuat)\<close> that
  lines 313-334 compute from the camera and the parent's world matrix of this frame
  (\<open>None\<close> when the group has no parent, line 344).
\<close>

record 'q RenderFrame =
  frameDelta :: real
  frameMode :: InteractionMode
  frameRef :: GestureRef
  lockTarget :: "(vec3 \<times> 'q) option"

definition initialPhotoGroup :: "'q three \<Rightarrow> 'q PhotoGroupState" where
  "initialPhotoGroup lib =
     \<lparr>progress = 0, lockedState = None,
      groupPose = \<lparr>position = (0, 0, 0), quaternion = identityQuat lib, scale = (1, 1, 1)\<rparr>\<rparr>"

fun treePosOf :: "vec3 \<Rightarrow> real \<Rightarrow> vec3" where
  "treePosOf (x, y, z) activeDispersion = (x * (1 + activeDispersion), y, z * (1 + activeDispersion))"

text \<open>Step 4 of the callback, lines 355-357.\<close>

definition interpolate ::
  "'q three \<Rightarrow> vec3 \<times> 'q \<times> vec3 \<Rightarrow> vec3 \<times> 'q \<times> vec3 \<Rightarrow> real \<Rightarrow> 'q Transform" where
  "interpolate lib tree locked p =
     (case (tree, locked) of ((treePos, treeQuat, treeScale), (lockedPos, lockedQuat, lockedScale)) \<Rightarrow>
        \<lparr>position = lerpVectors lib treePos lockedPos p,
         quaternion = slerpQuaternions lib treeQuat lockedQuat p,
         scale = lerpVectors lib treeScale lockedScale p\<rparr>)"

definition photoGroupFrame ::
  "'q three \<Rightarrow> PhotoData \<Rightarrow> 'q RenderFrame \<Rightarrow> 'q PhotoGroupState \<Rightarrow> 'q PhotoGroupState" where
  "photoGroupFrame lib photo fr st =
     (let p = updateProgress (focusedId (frameRef fr)) (photoId photo) (frameDelta fr) (progress st);
          activeDispersion = (if frameMode fr = GESTURE then dispersion (frameRef fr) else 0);
          treePos = treePosOf (photoPosition photo) activeDispersion;
          treeQuat = setFromEuler lib (photoRotation photo);
          treeScale = setScalar (1 + activeDispersion * 0.5);
          lockedScale = (3, 3, 3)
      in
        if p < 0.001 then
          \<lparr>progress = p, lockedState = None,
           groupPose = \<lparr>position = treePos, quaternion = treeQuat, scale = treeScale\<rparr>\<rparr>
        else
          (case (if p \<ge> 0.99 then lockedState st else None) of
             Some cached \<Rightarrow>
               \<lparr>progress = p, lockedState = lockedState st,
                groupPose = interpolate lib (treePos, treeQuat, treeScale)
                              (lockPos cached, lockQuat cached, lockedScale) p\<rparr>
           | None \<Rightarrow>
               (case lockTarget fr of
                  Some (lockedPos, lockedQuat) \<Rightarrow>
                    \<lparr>progress = p,
                     lockedState =
                       (if p \<ge> 0.99
                        then Some \<lparr>lockPos = lockedPos, lockQuat = lockedQuat, lockScale = lockedScale\<rparr>
                        else lockedState st),
                     groupPose = interpolate lib (treePos, treeQuat, treeScale)
                                   (lockedPos, lockedQuat, lockedScale) p\<rparr>
                | None \<Rightarrow>
                    \<lparr>progress = p, lockedState = lockedState st,
                     groupPose = interpolate lib (treePos, treeQuat, treeScale)
                                   (treePos, treeQuat, lockedScale) p\<rparr>)))"

text \<open>The photo after a sequence of frames, and the transform rendered on each of them.\<close>

fun photoGroupRun ::
  "'q three \<Rightarrow> PhotoData \<Rightarrow> 'q RenderFrame list \<Rightarrow> 'q PhotoGroupState \<Rightarrow> 'q PhotoGroupState" where
  "photoGroupRun lib photo [] st = st"
| "photoGroupRun lib photo (fr # frs) st = photoGroupRun lib photo frs (photoGroupFrame lib photo fr st)"

fun renderedPoses ::
  "'q three \<Rightarrow> PhotoData \<Rightarrow> 'q RenderFrame list \<Rightarrow> 'q PhotoGroupState \<Rightarrow> 'q Transform list" where
  "renderedPoses lib photo [] st = []"
| "renderedPoses lib photo (fr # frs) st =
     groupPose (photoGroupFrame lib photo fr st)
       # renderedPoses lib photo frs (photoGroupFrame lib photo fr st)"

text \<open>
  The tree pose of a frame (step 2 of the callback, lines 290-297) depends on the frame
  through the dispersion in use only: the gesture dispersion in gesture mode, 0 in mouse
  mode.
\<close>

definition activeDispersionOf :: "'q RenderFrame \<Rightarrow> real" where
  "activeDispersionOf fr = (if frameMode fr = GESTURE then dispersion (frameRef fr) else 0)"

definition treeState :: "'q three \<Rightarrow> PhotoData \<Rightarrow> real \<Rightarrow> vec3 \<times> 'q \<times> vec3" where
  "treeState lib photo activeDispersion =
     (treePosOf (photoPosition photo) activeDispersion,
      setFromEuler lib (photoRotation photo),
      setScalar (1 + activeDispersion * 0.5))"

text \<open>
  The transform that step 4 renders when the blend factor is exactly 1 and the locked
  position and orientation come from the cache: the library's interpolation between the
  tree pose and the cached lock with the scale 3.
\<close>

definition lockedPose :: "'q three \<Rightarrow> PhotoData \<Rightarrow> real \<Rightarrow> 'q LockedState \<Rightarrow> 'q Transform" where
  "lockedPose lib photo activeDispersion cached =
     interpolate lib (treeState lib photo activeDispersion)
       (lockPos cached, lockQuat cached, (3, 3, 3)) 1"

text \<open>
  An instance of the library parameter, used for concrete runs only: arithmetic without
  rounding, with rotations about the Y axis (the only axis the photos of \<open>App.tsx\<close>
  are rotated about, line 704) given by their angle.
\<close>

definition exactThree :: "real three" where
  "exactThree =
     \<lparr>identityQuat = 0,
      setFromEuler = (\<lambda>(x, y, z). y),
      slerpQuaternions = (\<lambda>a b t. a + (b - a) * t),
      lerpVectors = (\<lambda>(x1, y1, z1) (x2, y2, z2) alpha.
         (x1 + (x2 - x1) * alpha, y1 + (y2 - y1) * alpha, z1 + (z2 - z1) * alpha))\<rparr>"

section \<open>Scene controller (\<open>Scene\<close>, \<open>App.tsx\<close> lines 443-480)\<close>

text \<open>
  Part 1 of the callback: the speed of lines 446-459 and the yaw update of line 461, the
  yaw being \<open>groupRef.current.rotation.y\<close> of the mounted scene group.
\<close>

definition sceneSpeed :: "InteractionMode \<Rightarrow> 'a GestureRef_scheme \<Rightarrow> real" where
  "sceneSpeed mode gref =
     (let speed = 0.1;
          speed = (if mode = GESTURE
                   then (let speed = rotation gref
                         in if dispersion gref > 0.5 then speed * 0.1 else speed)
                   else speed)
      in if truthyId (focusedId gref) then speed * 0.05 else speed)"

definition rotationStep :: "InteractionMode \<Rightarrow> 'a GestureRef_scheme \<Rightarrow> real \<Rightarrow> real \<Rightarrow> real" where
  "rotationStep mode gref delta yaw = yaw + sceneSpeed mode gref * delta"

text \<open>The yaw after a run of frames with the given deltas, mode and gesture state unchanged.\<close>

fun yawAfter :: "InteractionMode \<Rightarrow> 'a GestureRef_scheme \<Rightarrow> real list \<Rightarrow> real \<Rightarrow> real" where
  "yawAfter mode gref [] yaw = yaw"
| "yawAfter mode gref (delta # deltas) yaw = yawAfter mode gref deltas (rotationStep mode gref delta yaw)"

text \<open>
  Part 2, lines 464-479. \<open>rnd\<close> is the value of \<open>Math.random()\<close>. Reading \<open>.id\<close> of
  \<open>photos[randomIndex]\<close> throws a \<open>TypeError\<close> when the index is outside the array.
\<close>

datatype error = TypeError

text \<open>The condition under which the random selection of lines 472-474 runs.\<close>

definition selectFires :: "InteractionMode \<Rightarrow> 'a GestureRef_scheme \<Rightarrow> bool" where
  "selectFires mode gref \<longleftrightarrow>
     mode = GESTURE \<and> isHandDetected gref \<and> truthyFlag (isPinching gref)
     \<and> dispersion gref > 0.3 \<and> \<not> truthyId (focusedId gref)"

definition randomIndex :: "PhotoData list \<Rightarrow> real \<Rightarrow> int" where
  "randomIndex photos rnd = \<lfloor>rnd * real (length photos)\<rfloor>"

definition selectionStep ::
  "InteractionMode \<Rightarrow> PhotoData list \<Rightarrow> real \<Rightarrow> GestureRef \<Rightarrow> error + GestureRef" where
  "selectionStep mode photos rnd gref =
     (if mode = GESTURE \<and> isHandDetected gref then
        if truthyFlag (isPinching gref) \<and> dispersion gref > 0.3 \<and> \<not> truthyId (focusedId gref) then
          (let i = randomIndex photos rnd
           in if 0 \<le> i \<and> i < int (length photos)
              then Inr (gref\<lparr>focusedId := Some (photoId (photos ! nat i))\<rparr>)
              else Inl TypeError)
        else if \<not> truthyFlag (isPinching gref) \<or> dispersion gref \<le> 0.3 then
          Inr (gref\<lparr>focusedId := None\<rparr>)
        else Inr gref
      else Inr gref)"

section \<open>The application's events (\<open>App.tsx\<close>)\<close>

text \<open>
  \<open>handleGestureUpdate\<close> (lines 719-748): \<open>{...gestureRef.current, ...data}\<close>. Every key
  of \<open>data\<close> overwrites, a key \<open>data\<close> does not have keeps the old value, and
  \<open>focusedId\<close> is never a key of \<open>data\<close>. (The React state \<open>isHandDetected\<close> that
  the function also sets drives the user interface only.)
\<close>

definition handleGestureUpdate :: "GestureRef \<Rightarrow> GestureData \<Rightarrow> GestureRef" where
  "handleGestureUpdate gref data =
     gref\<lparr>rotation := rotation data,
          dispersion := dispersion data,
          isHandDetected := isHandDetected data,
          cursor := (case cursor data of None \<Rightarrow> cursor gref | Some c \<Rightarrow> Some c),
          isPinching := (case isPinching data of None \<Rightarrow> isPinching gref | Some b \<Rightarrow> Some b)\<rparr>"

text \<open>
  Everything that writes \<open>gestureRef.current\<close> or the mode: a render frame of \<open>Scene\<close>
  (with its \<open>delta\<close> and its random number), \<open>onUpdate\<close> from the gesture controller, a
  click on a photo (lines 497-507), \<open>onPointerMissed\<close> (line 771) and the two mode buttons.
\<close>

datatype event =
    RenderTick real real
  | GestureUpdate GestureData
  | PhotoClick string
  | PointerMissed
  | SetMode InteractionMode

record AppState =
  interactionMode :: InteractionMode
  gestureRef :: GestureRef
  sceneYaw :: real

definition initialApp :: AppState where
  "initialApp = \<lparr>interactionMode = MOUSE, gestureRef = initialGestureRef, sceneYaw = 0\<rparr>"

fun appStep :: "PhotoData list \<Rightarrow> event \<Rightarrow> AppState \<Rightarrow> error + AppState" where
  "appStep photos (RenderTick delta rnd) st =
     (let yaw' = rotationStep (interactionMode st) (gestureRef st) delta (sceneYaw st)
      in case selectionStep (interactionMode st) photos rnd (gestureRef st) of
           Inl e \<Rightarrow> Inl e
         | Inr gref' \<Rightarrow> Inr (st\<lparr>gestureRef := gref', sceneYaw := yaw'\<rparr>))"
| "appStep photos (GestureUpdate data) st =
     Inr (st\<lparr>gestureRef := handleGestureUpdate (gestureRef st) data\<rparr>)"
| "appStep photos (PhotoClick pid) st =
     (if interactionMode st = MOUSE then
        (if focusedId (gestureRef st) = Some pid
         then Inr (st\<lparr>gestureRef := (gestureRef st)\<lparr>focusedId := None\<rparr>\<rparr>)
         else Inr (st\<lparr>gestureRef := (gestureRef st)\<lparr>focusedId := Some pid\<rparr>\<rparr>))
      else Inr st)"
| "appStep photos PointerMissed st = Inr (st\<lparr>gestureRef := (gestureRef st)\<lparr>focusedId := None\<rparr>\<rparr>)"
| "appStep photos (SetMode m) st = Inr (st\<lparr>interactionMode := m\<rparr>)"





section \<open>Gesture controller (\<open>GestureController\<close>, \<open>predictWebcam\<close>)\<close>

text \<open>
  \<open>src/unnamed/part_000\<close> holds the controller twice. The model follows the first copy
  (lines 1-276), whose discrete gesture is the pinch that \<open>App.tsx\<close> selects on; the
  second copy has the same loop, the same dispersion and the same hand-lost signal, and
  differs in the cursor (an aspect correction) and the gesture (an open hand). Drawing on
  the debug canvas is left out.

  A landmark of the detector, with its normalised image coordinates (the depth is never
  read), and a hand, the array of landmarks of \<open>result.landmarks[0]\<close>.
\<close>

record Landmark =
  lx :: real
  ly :: real

type_synonym Hand = "Landmark list"

text \<open>Reading \<open>landmarks[i]\<close>: \<open>undefined\<close> (here \<open>None\<close>) outside the array.\<close>

definition landmarkAt :: "Hand \<Rightarrow> nat \<Rightarrow> Landmark option" where
  "landmarkAt hand i = (if i < length hand then Some (hand ! i) else None)"

definition landmarkDist :: "Landmark \<Rightarrow> Landmark \<Rightarrow> real" where
  "landmarkDist a b = sqrt ((lx a - lx b)\<^sup>2 + (ly a - ly b)\<^sup>2)"

text \<open>Line 140: the remap of the wrist to middle-fingertip distance.\<close>

definition dispersionOf :: "real \<Rightarrow> real" where
  "dispersionOf dist' = min (max ((dist' - 0.15) / (0.35 - 0.15)) 0) 1"

text \<open>The specification's \<open>clamp(v, lo, hi)\<close>, for comparison.\<close>

definition clamp_spec :: "real \<Rightarrow> real \<Rightarrow> real \<Rightarrow> real" where
  "clamp_spec v lo hi = (if v < lo then lo else if hi < v then hi else v)"

text \<open>
  Lines 125-199: the signal computed from a detected hand. Reading a coordinate of a
  landmark that is \<open>undefined\<close> throws inside the \<open>try\<close> block; that is \<open>None\<close> here.
\<close>

definition interpretHand :: "Hand \<Rightarrow> GestureData option" where
  "interpretHand landmarks =
     (case (landmarkAt landmarks 0, landmarkAt landmarks 8, landmarkAt landmarks 4,
            landmarkAt landmarks 12) of
        (Some wrist, Some indexTip, Some thumbTip, Some middleTip) \<Rightarrow>
          (let rotationValue = (lx wrist - 0.5) * 5;
               dist' = landmarkDist middleTip wrist;
               dispersionValue = dispersionOf dist';
               x = lx indexTip * 2 - 1;
               y = - (ly indexTip * 2 - 1);
               pinchDist = landmarkDist thumbTip indexTip
           in Some \<lparr>rotation = rotationValue, dispersion = dispersionValue,
                     isHandDetected = True, cursor = Some (x, y),
                     isPinching = Some (pinchDist < 0.05)\<rparr>)
      | _ \<Rightarrow> None)"

text \<open>Lines 203-209: the signal of the branch \<open>// Hand lost\<close>.\<close>

definition handLost :: GestureData where
  "handLost =
     \<lparr>rotation = 0, dispersion = 0, isHandDetected = False, cursor = Some (0, 0),
      isPinching = Some False\<rparr>"

text \<open>
  What one call of \<open>predictWebcam\<close> finds: whether \<open>handLandmarkerRef.current\<close> and
  \<open>canvasRef.current\<close> are set, the video element, and what \<open>detectForVideo\<close> does
  on this frame: it throws, or it returns a result whose \<open>landmarks\<close> is \<open>undefined\<close>
  (\<open>None\<close>) or an array of hands.
\<close>

record Video =
  readyState :: nat
  videoWidth :: nat
  videoHeight :: nat
  currentTime :: real

datatype Detection = DetectThrows | DetectResult "Hand list option"

record TickEnv =
  hasLandmarker :: bool
  hasCanvas :: bool
  video :: Video
  detection :: Detection

text \<open>The variables of the effect's closure.\<close>

record LoopState =
  isRunning :: bool
  lastVideoTime :: real

text \<open>
  The outcome of a tick: the argument of \<open>onUpdate\<close> if it was called, the closure's
  variables, and whether \<open>requestAnimationFrame(predictWebcam)\<close> was called.
\<close>

record TickResult =
  emitted :: "GestureData option"
  nextLoop :: LoopState
  rescheduled :: bool

definition degenerate :: "Video \<Rightarrow> bool" where
  "degenerate v \<longleftrightarrow> readyState v < 2 \<or> videoWidth v < 1 \<or> videoHeight v < 1"

definition predictWebcam :: "TickEnv \<Rightarrow> LoopState \<Rightarrow> TickResult" where
  "predictWebcam env st =
     (if \<not> isRunning st then \<lparr>emitted = None, nextLoop = st, rescheduled = False\<rparr>
      else if \<not> hasLandmarker env \<or> \<not> hasCanvas env then
        \<lparr>emitted = None, nextLoop = st, rescheduled = isRunning st\<rparr>
      else if degenerate (video env) then
        \<lparr>emitted = None, nextLoop = st, rescheduled = isRunning st\<rparr>
      else if currentTime (video env) \<noteq> lastVideoTime st then
        (let st' = st\<lparr>lastVideoTime := currentTime (video env)\<rparr>
         in case detection env of
              DetectThrows \<Rightarrow> \<lparr>emitted = None, nextLoop = st', rescheduled = isRunning st'\<rparr>
            | DetectResult (Some (landmarks # others)) \<Rightarrow>
                (case interpretHand landmarks of
                   None \<Rightarrow> \<lparr>emitted = None, nextLoop = st', rescheduled = isRunning st'\<rparr>
                 | Some data \<Rightarrow>
                     \<lparr>emitted = Some data, nextLoop = st', rescheduled = isRunning st'\<rparr>)
            | DetectResult _ \<Rightarrow>
                \<lparr>emitted = Some handLost, nextLoop = st', rescheduled = isRunning st'\<rparr>)
      else \<lparr>emitted = None, nextLoop = st, rescheduled = isRunning st\<rparr>)"

text \<open>The published signal after a tick: \<open>onUpdate\<close> is \<open>handleGestureUpdate\<close>.\<close>

definition publish :: "GestureRef \<Rightarrow> TickResult \<Rightarrow> GestureRef" where
  "publish gref res = (case emitted res of None \<Rightarrow> gref | Some data \<Rightarrow> handleGestureUpdate gref data)"

subsection \<open>The legacy variant (\<open>src/unnamed/part_001\<close>)\<close>

text \<open>
  The older controller has no cursor and no pinch: its signal has the three keys
  \<open>rotation\<close>, \<open>dispersion\<close> and \<open>isHandDetected\<close>, its dispersion is inverted,
  and its closure has the variable \<open>lastVideoTime\<close> only.
\<close>

definition interpretHand_legacy :: "Hand \<Rightarrow> GestureData option" where
  "interpretHand_legacy landmarks =
     (case (landmarkAt landmarks 0, landmarkAt landmarks 12) of
        (Some wrist, Some middleTip) \<Rightarrow>
          (let rotationValue = (lx wrist - 0.5) * 5;
               dist' = landmarkDist middleTip wrist;
               dispersionValue = 1 - dispersionOf dist'
           in Some \<lparr>rotation = rotationValue, dispersion = dispersionValue,
                     isHandDetected = True, cursor = None, isPinching = None\<rparr>)
      | _ \<Rightarrow> None)"

definition handLost_legacy :: GestureData where
  "handLost_legacy =
     \<lparr>rotation = 0.1, dispersion = 0, isHandDetected = False, cursor = None, isPinching = None\<rparr>"

record TickResult_legacy =
  emitted_legacy :: "GestureData option"
  nextVideoTime :: real
  rescheduled_legacy :: bool

definition predictWebcam_legacy :: "TickEnv \<Rightarrow> real \<Rightarrow> TickResult_legacy" where
  "predictWebcam_legacy env lastTime =
     (if \<not> hasLandmarker env \<or> \<not> hasCanvas env then
        \<lparr>emitted_legacy = None, nextVideoTime = lastTime, rescheduled_legacy = False\<rparr>
      else if degenerate (video env) then
        \<lparr>emitted_legacy = None, nextVideoTime = lastTime, rescheduled_legacy = True\<rparr>
      else if currentTime (video env) \<noteq> lastTime then
        (case detection env of
           DetectThrows \<Rightarrow>
             \<lparr>emitted_legacy = None, nextVideoTime = currentTime (video env),
              rescheduled_legacy = True\<rparr>
         | DetectResult (Some (landmarks # others)) \<Rightarrow>
             \<lparr>emitted_legacy = interpretHand_legacy landmarks,
              nextVideoTime = currentTime (video env), rescheduled_legacy = True\<rparr>
         | DetectResult _ \<Rightarrow>
             \<lparr>emitted_legacy = Some handLost_legacy, nextVideoTime = currentTime (video env),
              rescheduled_legacy = True\<rparr>)
      else \<lparr>emitted_legacy = None, nextVideoTime = lastTime, rescheduled_legacy = True\<rparr>)"

section \<open>Scenarios and invariants used by the theorems\<close>



section \<open>Smoothing: the focus progress and the dispersion uniform\<close>

lemma lerp_smooth_spec: "lerp x y t = smooth_spec x y t"
  by (simp add: lerp_def smooth_spec_def algebra_simps)

lemma targetProgress_cases: "targetProgress fid pid = 0 \<or> targetProgress fid pid = 1"
  by (simp add: targetProgress_def)

text \<open>
  A focused photo moves up and stays at most 1. Blend factors up to 1.01 are covered:
  an overshoot of less than 0.01 is removed by the snap.
\<close>

lemma updateProgress_focused:
  assumes "0 \<le> p" "p \<le> 1" "0 < k" "k < 101/100" "k = 10 * delta"
  shows "p \<le> updateProgress (Some pid) pid delta p \<and> updateProgress (Some pid) pid delta p \<le> 1"
proof -
  have e: "lerp p 1 k = 1 - (1 - k) * (1 - p)" by (simp add: lerp_def algebra_simps)
  show ?thesis
  proof (cases "k \<le> 1")
    case True
    have "0 \<le> (1 - k) * (1 - p)" using True assms by simp
    moreover have "(1 - k) * (1 - p) \<le> 1 * (1 - p)"
      using True assms by (intro mult_right_mono) auto
    ultimately show ?thesis using assms e
      by (auto simp: updateProgress_def snap_def targetProgress_def)
  next
    case False
    have "(k - 1) * (1 - p) \<le> (k - 1) * 1" using False assms by (intro mult_left_mono) auto
    moreover have "0 \<le> (k - 1) * (1 - p)" using False assms by simp
    ultimately have "\<bar>lerp p 1 k - 1\<bar> < 1/100" using assms e by (simp add: algebra_simps)
    then show ?thesis using assms
      by (auto simp: updateProgress_def snap_def targetProgress_def)
  qed
qed

lemma updateProgress_unfocused:
  assumes "0 \<le> p" "p \<le> 1" "0 < k" "k < 101/100" "k = 10 * delta" "fid \<noteq> Some pid"
  shows "0 \<le> updateProgress fid pid delta p \<and> updateProgress fid pid delta p \<le> p"
proof -
  have e: "lerp p 0 k = (1 - k) * p" by (simp add: lerp_def algebra_simps)
  show ?thesis
  proof (cases "k \<le> 1")
    case True
    have "0 \<le> (1 - k) * p" using True assms by simp
    moreover have "(1 - k) * p \<le> 1 * p" using True assms by (intro mult_right_mono) auto
    ultimately show ?thesis using assms e
      by (auto simp: updateProgress_def snap_def targetProgress_def)
  next
    case False
    have "(k - 1) * p \<le> (k - 1) * 1" using False assms by (intro mult_left_mono) auto
    moreover have "0 \<le> (k - 1) * p" using False assms by simp
    ultimately have "\<bar>lerp p 0 k - 0\<bar> < 1/100" using assms e by (simp add: algebra_simps)
    then show ?thesis using assms
      by (auto simp: updateProgress_def snap_def targetProgress_def)
  qed
qed

lemma updateProgress_bounds:
  assumes "0 \<le> p" "p \<le> 1" "0 < 10 * delta" "10 * delta < 101/100"
  shows "0 \<le> updateProgress fid pid delta p \<and> updateProgress fid pid delta p \<le> 1"
proof (cases "fid = Some pid")
  case True
  then show ?thesis
    using updateProgress_focused[OF assms(1,2,3,4) refl, of pid] assms by auto
next
  case False
  then show ?thesis
    using updateProgress_unfocused[OF assms(1,2,3,4) refl False] assms by auto
qed

lemma progressFrom_bounds:
  assumes "\<forall>f \<in> set fs. 0 < 10 * snd f \<and> 10 * snd f < 101/100" "0 \<le> p" "p \<le> 1"
  shows "0 \<le> progressFrom p pid fs \<and> progressFrom p pid fs \<le> 1"
  using assms
proof (induction fs arbitrary: p)
  case Nil
  then show ?case by simp
next
  case (Cons f fs)
  obtain fid delta where f: "f = (fid, delta)" by (cases f)
  have "0 \<le> updateProgress fid pid delta p \<and> updateProgress fid pid delta p \<le> 1"
    using Cons.prems f by (intro updateProgress_bounds) auto
  then show ?case using Cons f by simp
qed

lemma progressFrom_append:
  "progressFrom p pid (fs @ gs) = progressFrom (progressFrom p pid fs) pid gs"
  by (induction fs arbitrary: p) auto

text \<open>The progress field of the full frame function is \<open>updateProgress\<close>.\<close>

lemma progress_photoGroupFrame:
  "progress (photoGroupFrame lib photo fr st) =
     updateProgress (focusedId (frameRef fr)) (photoId photo) (frameDelta fr) (progress st)"
  by (simp add: photoGroupFrame_def Let_def split: option.splits)

lemma progress_photoGroupRun:
  "progress (photoGroupRun lib photo frs st) =
     progressFrom (progress st) (photoId photo)
       (map (\<lambda>fr. (focusedId (frameRef fr), frameDelta fr)) frs)"
  by (induction frs arbitrary: st) (simp_all add: progress_photoGroupFrame)

lemma snap_within:
  assumes "\<bar>p - targetProgress fid pid\<bar> < 1/100" "0 \<le> 10 * delta" "10 * delta \<le> 2"
  shows "updateProgress fid pid delta p = targetProgress fid pid"
proof -
  let ?T = "targetProgress fid pid" and ?k = "10 * delta"
  have "lerp p ?T ?k - ?T = (1 - ?k) * (p - ?T)" by (simp add: lerp_def algebra_simps)
  then have "\<bar>lerp p ?T ?k - ?T\<bar> = \<bar>1 - ?k\<bar> * \<bar>p - ?T\<bar>" by (simp add: abs_mult)
  also have "\<dots> \<le> 1 * \<bar>p - ?T\<bar>" using assms by (intro mult_right_mono) auto
  finally show ?thesis using assms by (simp add: updateProgress_def snap_def)
qed

text \<open>
  C1. Single-focus monotonicity. Take any run of render frames from the initial progress
  0 whose blend factors \<open>10 * delta\<close> lie in (0, 1], and one more such frame on which
  \<open>focusedId\<close> is \<open>a\<close>. On that frame the progress of the photo \<open>a\<close> does not
  decrease and stays at most 1, the progress of every other photo does not increase and
  stays at least 0, and on no frame (whatever its \<open>focusedId\<close>) do the progress
  values of two different photos both increase.
\<close>

theorem single_focus_monotone:
  assumes valid: "\<forall>f \<in> set fs. 0 < 10 * snd f \<and> 10 * snd f \<le> 1"
    and k: "0 < 10 * delta" "10 * delta \<le> 1"
  shows "progressAfter a fs \<le> progressAfter a (fs @ [(Some a, delta)])
       \<and> progressAfter a (fs @ [(Some a, delta)]) \<le> 1
       \<and> (\<forall>b. b \<noteq> a \<longrightarrow>
             0 \<le> progressAfter b (fs @ [(Some a, delta)])
           \<and> progressAfter b (fs @ [(Some a, delta)]) \<le> progressAfter b fs)
       \<and> (\<forall>fid b c. b \<noteq> c \<longrightarrow>
             \<not> (progressAfter b fs < progressAfter b (fs @ [(fid, delta)])
              \<and> progressAfter c fs < progressAfter c (fs @ [(fid, delta)])))"
proof -
  have v: "\<forall>f \<in> set fs. 0 < 10 * snd f \<and> 10 * snd f < 101/100"
    using valid by fastforce
  have k': "10 * delta < 101/100" using k by simp
  have inv: "0 \<le> progressAfter x fs \<and> progressAfter x fs \<le> 1" for x
    unfolding progressAfter_def using progressFrom_bounds[OF v] by simp
  have step: "progressAfter x (fs @ [(fid, delta)])
                = updateProgress fid x delta (progressAfter x fs)" for x fid
    by (simp add: progressAfter_def progressFrom_append)
  have foc: "progressAfter x fs \<le> progressAfter x (fs @ [(Some x, delta)])
           \<and> progressAfter x (fs @ [(Some x, delta)]) \<le> 1" for x
    unfolding step using updateProgress_focused[OF _ _ k(1) k' refl] inv by blast
  have unf: "0 \<le> progressAfter x (fs @ [(fid, delta)])
           \<and> progressAfter x (fs @ [(fid, delta)]) \<le> progressAfter x fs"
    if "fid \<noteq> Some x" for x fid
    unfolding step using updateProgress_unfocused[OF _ _ k(1) k' refl that] inv by blast
  have two: "\<not> (progressAfter b fs < progressAfter b (fs @ [(fid, delta)])
              \<and> progressAfter c fs < progressAfter c (fs @ [(fid, delta)]))"
    if "b \<noteq> c" for fid b c
  proof (cases "fid = Some b")
    case True
    then have "fid \<noteq> Some c" using that by auto
    from unf[OF this] show ?thesis by linarith
  next
    case False
    from unf[OF this] show ?thesis by linarith
  qed
  show ?thesis using foc unf two by auto
qed

theorem single_focus_monotone_witness:
  "progressAfter ''photo-1'' [(Some ''photo-2'', 1/20)]
     \<le> progressAfter ''photo-1'' ([(Some ''photo-2'', 1/20)] @ [(Some ''photo-1'', 1/20)])
   \<and> progressAfter ''photo-1'' ([(Some ''photo-2'', 1/20)] @ [(Some ''photo-1'', 1/20)]) = 1/2
   \<and> progressAfter ''photo-2'' [(Some ''photo-2'', 1/20)] = 1/2
   \<and> progressAfter ''photo-2'' ([(Some ''photo-2'', 1/20)] @ [(Some ''photo-1'', 1/20)]) = 1/4
   \<and> progressAfter ''photo-2'' ([(Some ''photo-2'', 1/20)] @ [(Some ''photo-1'', 1/20)])
     \<le> progressAfter ''photo-2'' [(Some ''photo-2'', 1/20)]"
proof -
  have h: "\<forall>f \<in> set [(Some ''photo-2'', 1/20 :: real)]. 0 < 10 * snd f \<and> 10 * snd f \<le> 1"
    by simp
  have v: "progressAfter ''photo-1'' ([(Some ''photo-2'', 1/20)] @ [(Some ''photo-1'', 1/20)]) = 1/2"
    "progressAfter ''photo-2'' [(Some ''photo-2'', 1/20)] = 1/2"
    "progressAfter ''photo-2'' ([(Some ''photo-2'', 1/20)] @ [(Some ''photo-1'', 1/20)]) = 1/4"
    by (simp_all add: progressAfter_def updateProgress_def snap_def lerp_def targetProgress_def)
  from single_focus_monotone[OF h, of "1/20" "''photo-1''"] v show ?thesis by simp
qed

text \<open>
  C4, amended. Starting from progress 0, for every sequence of per-frame updates whose
  frame deltas are positive with \<open>10 * delta < 1.01\<close> (targets are 0 or 1), the
  progress of each photo is within [0, 1] after every update. The code does not clamp the
  blend factor, so a longer frame overshoots: see the counterexample.
\<close>

theorem focusProgress_bounds:
  assumes "\<forall>f \<in> set fs. 0 < snd f \<and> 10 * snd f < 101/100"
  shows "\<forall>n \<le> length fs.
           0 \<le> progressAfter pid (take n fs) \<and> progressAfter pid (take n fs) \<le> 1"
proof (intro allI impI)
  fix n assume "n \<le> length fs"
  have "\<forall>f \<in> set (take n fs). 0 < 10 * snd f \<and> 10 * snd f < 101/100"
    using assms by (auto dest: in_set_takeD)
  from progressFrom_bounds[OF this]
  show "0 \<le> progressAfter pid (take n fs) \<and> progressAfter pid (take n fs) \<le> 1"
    by (simp add: progressAfter_def)
qed

theorem focusProgress_bounds_witness:
  "0 \<le> progressAfter ''photo-1'' [(Some ''photo-1'', 1/20), (None, 1/50)]
   \<and> progressAfter ''photo-1'' [(Some ''photo-1'', 1/20), (None, 1/50)] \<le> 1
   \<and> progressAfter ''photo-1'' [(Some ''photo-1'', 1/20), (None, 1/50)] = 2/5"
proof -
  have h: "\<forall>f \<in> set [(Some ''photo-1'', 1/20 :: real), (None, 1/50)].
             0 < snd f \<and> 10 * snd f < 101/100"
    by simp
  have v: "progressAfter ''photo-1'' [(Some ''photo-1'', 1/20), (None, 1/50)] = 2/5"
    by (simp add: progressAfter_def updateProgress_def snap_def lerp_def targetProgress_def)
  from focusProgress_bounds[OF h, of "''photo-1''", rule_format, of 2] have
    "0 \<le> progressAfter ''photo-1'' (take 2 [(Some ''photo-1'', 1/20), (None, 1/50)])
     \<and> progressAfter ''photo-1'' (take 2 [(Some ''photo-1'', 1/20), (None, 1/50)]) \<le> 1"
    by simp
  then show ?thesis using v by simp
qed

text \<open>
  The claim as stated fails: one frame of 0.15 s on a focused photo takes the progress from
  0 to 1.5.
\<close>

theorem focusProgress_bounds_counterexample:
  "0 < (15/100 :: real)
   \<and> progressAfter ''photo-1'' [(Some ''photo-1'', 15/100)] = 3/2
   \<and> \<not> progressAfter ''photo-1'' [(Some ''photo-1'', 15/100)] \<le> 1"
  by (simp add: progressAfter_def updateProgress_def snap_def lerp_def targetProgress_def)

text \<open>
  C3, amended. The smoothing step \<open>previous + (target - previous) * rate\<close> is applied to
  both smoothed quantities: to the dispersion uniform with rate 0.1 and to each photo's
  progress with rate \<open>10 * delta\<close>. The snap rule (epsilon 0.01) is applied to the progress
  only: when the progress is within 0.01 of its target and \<open>10 * delta\<close> is in [0, 2],
  one further step yields exactly the target. The dispersion step has no snap: it yields
  its target only when the value already equals it.
\<close>

theorem smoothing_and_snap:
  "lerp previous target rate = smooth_spec previous target rate
   \<and> particlesFrame mode gref u
       = smooth_spec u (if mode = GESTURE then dispersion gref else 0) (1/10)
   \<and> (particlesFrame mode gref u = (if mode = GESTURE then dispersion gref else 0)
        \<longleftrightarrow> u = (if mode = GESTURE then dispersion gref else 0))
   \<and> updateProgress fid pid delta p
       = snap (smooth_spec p (targetProgress fid pid) (10 * delta)) (targetProgress fid pid)
   \<and> (\<bar>p - targetProgress fid pid\<bar> < 1/100 \<and> 0 \<le> 10 * delta \<and> 10 * delta \<le> 2
        \<longrightarrow> updateProgress fid pid delta p = targetProgress fid pid)"
proof -
  have a: "particlesFrame mode gref u
       = smooth_spec u (if mode = GESTURE then dispersion gref else 0) (1/10)"
    by (simp add: particlesFrame_def lerp_smooth_spec)
  have b: "(particlesFrame mode gref u = (if mode = GESTURE then dispersion gref else 0)
        \<longleftrightarrow> u = (if mode = GESTURE then dispersion gref else 0))"
    by (auto simp: particlesFrame_def lerp_def)
  have c: "updateProgress fid pid delta p
       = snap (smooth_spec p (targetProgress fid pid) (10 * delta)) (targetProgress fid pid)"
    by (simp add: updateProgress_def lerp_smooth_spec)
  show ?thesis using lerp_smooth_spec a b c snap_within by blast
qed

theorem smoothing_and_snap_witness:
  "\<bar>995/1000 - targetProgress (Some ''photo-1'') ''photo-1''\<bar> < 1/100
   \<and> updateProgress (Some ''photo-1'') ''photo-1'' (1/60) (995/1000) = 1"
proof -
  have t: "targetProgress (Some ''photo-1'') ''photo-1'' = 1" by (simp add: targetProgress_def)
  from smoothing_and_snap[where fid = "Some ''photo-1''" and pid = "''photo-1''"
      and delta = "1/60" and p = "995/1000" and previous = 0 and target = 0 and rate = 0
      and mode = MOUSE and gref = initialGestureRef and u = 0] t
  show ?thesis by simp
qed

text \<open>
  The claim as stated fails for the dispersion: from 0.005, within 0.01 of the unchanged
  target 0, one further step yields 0.0045 and not the target. It also fails for the
  progress on a frame longer than 0.2 s: from 0.995, within 0.01 of the target 1, a frame
  of 0.4 s yields 1.015.
\<close>

theorem smoothing_and_snap_counterexample:
  "\<bar>5/1000 - dispersion initialGestureRef\<bar> < (1/100 :: real)
   \<and> particlesFrame GESTURE initialGestureRef (5/1000) = 45/10000
   \<and> particlesFrame GESTURE initialGestureRef (5/1000) \<noteq> dispersion initialGestureRef
   \<and> \<bar>995/1000 - targetProgress (Some ''photo-1'') ''photo-1''\<bar> < 1/100
   \<and> updateProgress (Some ''photo-1'') ''photo-1'' (4/10) (995/1000) = 1015/1000
   \<and> updateProgress (Some ''photo-1'') ''photo-1'' (4/10) (995/1000)
       \<noteq> targetProgress (Some ''photo-1'') ''photo-1''"
  by (simp add: particlesFrame_def lerp_def initialGestureRef_def updateProgress_def snap_def
      targetProgress_def)

section \<open>The locked pose\<close>

text \<open>
  A focused photo's progress becomes exactly 1 on a frame whose update lands within 0.01
  of 1; that is always so from progress 1, and from a progress in [0.99, 1] for every
  blend factor in (0, 2).
\<close>

lemma updateProgress_snaps_to_one:
  assumes "\<bar>(1 - 10 * delta) * (1 - p)\<bar> < 1/100"
  shows "updateProgress (Some pid) pid delta p = 1"
proof -
  have "lerp p 1 (10 * delta) - 1 = - ((1 - 10 * delta) * (1 - p))"
    by (simp add: lerp_def algebra_simps)
  then have "\<bar>lerp p 1 (10 * delta) - 1\<bar> = \<bar>(1 - 10 * delta) * (1 - p)\<bar>"
    by simp
  then show ?thesis using assms by (simp add: updateProgress_def snap_def targetProgress_def)
qed

lemma lands_from_one: "\<bar>(1 - k) * (1 - (1::real))\<bar> < 1/100"
  by simp

lemma lands_from_near_one:
  assumes "99/100 \<le> p" "p \<le> 1" "0 < k" "k < 2"
  shows "\<bar>(1 - k) * (1 - p)\<bar> < (1/100 :: real)"
proof (cases "p = 1")
  case True
  then show ?thesis by simp
next
  case False
  then have pos: "0 < 1 - p" using assms by simp
  have "\<bar>1 - k\<bar> < 1" using assms by (simp add: abs_less_iff)
  then have "\<bar>1 - k\<bar> * (1 - p) < 1 * (1 - p)" using pos by (intro mult_strict_right_mono)
  also have "\<dots> \<le> 1/100" using assms by simp
  finally show ?thesis using pos by (simp add: abs_mult)
qed

lemma photoGroupFrame_at_one:
  assumes u: "updateProgress (focusedId (frameRef fr)) (photoId photo) (frameDelta fr)
                (progress st) = 1"
    and c: "lockedState st = Some cached"
  shows "photoGroupFrame lib photo fr st =
           \<lparr>progress = 1, lockedState = Some cached,
            groupPose = lockedPose lib photo (activeDispersionOf fr) cached\<rparr>"
  unfolding photoGroupFrame_def u Let_def
  by (simp add: c lockedPose_def treeState_def activeDispersionOf_def)

lemma renderedPoses_at_one:
  assumes "progress st = 1" "lockedState st = Some cached"
    and "\<forall>fr \<in> set frs. focusedId (frameRef fr) = Some (photoId photo)"
  shows "renderedPoses lib photo frs st =
           map (\<lambda>fr. lockedPose lib photo (activeDispersionOf fr) cached) frs"
  using assms
proof (induction frs arbitrary: st)
  case Nil
  then show ?case by simp
next
  case (Cons fr frs)
  have "updateProgress (focusedId (frameRef fr)) (photoId photo) (frameDelta fr) (progress st) = 1"
    using Cons.prems updateProgress_snaps_to_one[of "frameDelta fr" 1 "photoId photo"] by simp
  from photoGroupFrame_at_one[OF this Cons.prems(2), of lib]
  have step: "photoGroupFrame lib photo fr st =
           \<lparr>progress = 1, lockedState = Some cached,
            groupPose = lockedPose lib photo (activeDispersionOf fr) cached\<rparr>" .
  have "renderedPoses lib photo frs (photoGroupFrame lib photo fr st) =
           map (\<lambda>fr. lockedPose lib photo (activeDispersionOf fr) cached) frs"
    using Cons.prems by (intro Cons.IH) (auto simp: step)
  then show ?case by (simp add: step)
qed

lemma renderedPoses_from_reach:
  assumes first: "\<bar>(1 - 10 * frameDelta fr1) * (1 - progress st)\<bar> < 1/100"
    and c: "lockedState st = Some cached"
    and later: "\<forall>fr \<in> set (fr1 # frs). focusedId (frameRef fr) = Some (photoId photo)"
  shows "renderedPoses lib photo (fr1 # frs) st =
           map (\<lambda>fr. lockedPose lib photo (activeDispersionOf fr) cached) (fr1 # frs)"
proof -
  have "updateProgress (focusedId (frameRef fr1)) (photoId photo) (frameDelta fr1) (progress st) = 1"
    using later updateProgress_snaps_to_one[OF first, of "photoId photo"] by simp
  from photoGroupFrame_at_one[OF this c, of lib]
  have step: "photoGroupFrame lib photo fr1 st =
           \<lparr>progress = 1, lockedState = Some cached,
            groupPose = lockedPose lib photo (activeDispersionOf fr1) cached\<rparr>" .
  have "renderedPoses lib photo frs (photoGroupFrame lib photo fr1 st) =
           map (\<lambda>fr. lockedPose lib photo (activeDispersionOf fr) cached) frs"
    using later by (intro renderedPoses_at_one) (auto simp: step)
  then show ?thesis by (simp add: step)
qed

lemma photoGroupFrame_caches:
  assumes "99/100 \<le> progress (photoGroupFrame lib photo fr st)"
    and "lockTarget fr \<noteq> None \<or> lockedState st \<noteq> None"
  shows "\<exists>cached. lockedState (photoGroupFrame lib photo fr st) = Some cached"
  using assms
  by (auto simp: photoGroupFrame_def Let_def split: option.splits if_splits)

lemma photoGroupFrame_pose_at_one:
  assumes "progress (photoGroupFrame lib photo fr st) = 1"
    and "lockedState (photoGroupFrame lib photo fr st) = Some cached"
  shows "groupPose (photoGroupFrame lib photo fr st) =
           lockedPose lib photo (activeDispersionOf fr) cached"
  using assms
  by (auto simp: photoGroupFrame_def Let_def lockedPose_def treeState_def activeDispersionOf_def
      split: option.splits if_splits)

lemmas frame_eval =
  photoGroupFrame_def updateProgress_def snap_def lerp_def targetProgress_def Let_def
  interpolate_def setScalar_def initialPhotoGroup_def initialGestureRef_def exactThree_def

text \<open>
  C2, amended. Let the progress of photo A have reached at least 0.99 on a frame on which
  a locked pose is cached (the group has a parent on that frame, or a lock was cached
  before), let \<open>focusedId\<close> equal A's id on every subsequent frame, and let the first
  subsequent frame bring the progress within 0.01 of 1, that is
  \<open>|1 - 10 * delta| * |1 - progress| < 0.01\<close>: always when the progress reached is
  exactly 1, and for every blend factor \<open>10 * delta\<close> in (0, 2) when it is in [0.99, 1].
  Then on every subsequent frame, whatever the deltas of the frames after the first and
  whatever the camera (the lock target) is, the rendered position, orientation and scale
  are what the library's interpolation gives at the blend factor exactly 1 between the
  tree pose of that frame and the cached position and orientation with the scale 3. The
  frame enters through its mode and dispersion only: replacing the lock targets of the
  subsequent frames changes nothing, and when those frames have the same dispersion in use
  (as all frames in mouse mode have) the rendered pose is identical on all of them. When
  the progress reached is exactly 1, the reaching frame is rendered the same way. Nothing
  is assumed of the library's arithmetic, and nothing is said of how its result at the
  blend factor 1 compares between frames of different dispersion. The code does not clamp
  the blend factor, so the claim as stated fails when a long frame overshoots: see the
  counterexample.
\<close>

theorem locked_pose_stable:
  assumes reach: "st = photoGroupFrame lib photo fr0 st0" "99/100 \<le> progress st"
      "lockTarget fr0 \<noteq> None \<or> lockedState st0 \<noteq> None"
    and first: "\<bar>(1 - 10 * frameDelta fr1) * (1 - progress st)\<bar> < 1/100"
    and later: "\<forall>fr \<in> set (fr1 # frs). focusedId (frameRef fr) = Some (photoId photo)"
  shows "\<exists>cached. lockedState st = Some cached
         \<and> renderedPoses lib photo (fr1 # frs) st =
             map (\<lambda>fr. lockedPose lib photo (activeDispersionOf fr) cached) (fr1 # frs)
         \<and> (\<forall>camera. renderedPoses lib photo
                         (map (\<lambda>fr. fr\<lparr>lockTarget := camera fr\<rparr>) (fr1 # frs)) st
                       = renderedPoses lib photo (fr1 # frs) st)
         \<and> (\<forall>d. (\<forall>fr \<in> set (fr1 # frs). activeDispersionOf fr = d) \<longrightarrow>
                  renderedPoses lib photo (fr1 # frs) st =
                    replicate (Suc (length frs)) (lockedPose lib photo d cached))
         \<and> (progress st = 1 \<longrightarrow>
               groupPose st = lockedPose lib photo (activeDispersionOf fr0) cached)"
proof -
  obtain cached where c: "lockedState st = Some cached"
    using photoGroupFrame_caches[of lib photo fr0 st0] reach by auto
  have poses: "renderedPoses lib photo (fr1 # frs) st =
             map (\<lambda>fr. lockedPose lib photo (activeDispersionOf fr) cached) (fr1 # frs)"
    using renderedPoses_from_reach[OF first c later] .
  have cam: "renderedPoses lib photo (map (\<lambda>fr. fr\<lparr>lockTarget := camera fr\<rparr>) (fr1 # frs)) st
               = renderedPoses lib photo (fr1 # frs) st" for camera
  proof -
    let ?m = "\<lambda>fr. fr\<lparr>lockTarget := camera fr\<rparr>"
    have f: "\<bar>(1 - 10 * frameDelta (?m fr1)) * (1 - progress st)\<bar> < 1/100"
      using first by simp
    have l: "\<forall>fr \<in> set (?m fr1 # map ?m frs). focusedId (frameRef fr) = Some (photoId photo)"
      using later by auto
    have "renderedPoses lib photo (?m fr1 # map ?m frs) st =
            map (\<lambda>fr. lockedPose lib photo (activeDispersionOf fr) cached) (?m fr1 # map ?m frs)"
      using renderedPoses_from_reach[OF f c l] .
    also have "\<dots> = map (\<lambda>fr. lockedPose lib photo (activeDispersionOf fr) cached) (fr1 # frs)"
      by (simp add: activeDispersionOf_def comp_def)
    finally show ?thesis using poses by simp
  qed
  have same: "renderedPoses lib photo (fr1 # frs) st =
                replicate (Suc (length frs)) (lockedPose lib photo d cached)"
    if "\<forall>fr \<in> set (fr1 # frs). activeDispersionOf fr = d" for d
  proof -
    have "map (\<lambda>fr. lockedPose lib photo (activeDispersionOf fr) cached) (fr1 # frs)
            = map (\<lambda>fr. lockedPose lib photo d cached) (fr1 # frs)"
      using that by (intro map_cong) auto
    then show ?thesis unfolding poses by (simp add: map_replicate_const)
  qed
  have at_reach: "progress st = 1 \<longrightarrow>
               groupPose st = lockedPose lib photo (activeDispersionOf fr0) cached"
    using photoGroupFrame_pose_at_one[of lib photo fr0 st0 cached] c reach(1) by simp
  show ?thesis using c poses cam same at_reach by blast
qed

theorem locked_pose_stable_witness:
  "let photo = \<lparr>photoId = ''photo-1'', url = ''photos/1.jpg'', photoPosition = (4, 0, 3),
                 photoRotation = (0, - 8/10, 0)\<rparr>;
       focused = initialGestureRef\<lparr>focusedId := Some ''photo-1''\<rparr>;
       fr0 = \<lparr>frameDelta = 1/10, frameMode = MOUSE, frameRef = focused,
              lockTarget = Some ((0, 0, 15), 0)\<rparr>;
       st = photoGroupFrame exactThree photo fr0 (initialPhotoGroup exactThree);
       fr1 = \<lparr>frameDelta = 1/60, frameMode = MOUSE, frameRef = focused,
               lockTarget = Some ((1, 2, 14), 1/2)\<rparr>;
       fr2 = \<lparr>frameDelta = 3/10, frameMode = MOUSE, frameRef = focused\<lparr>dispersion := 7/10\<rparr>,
               lockTarget = None\<rparr>
   in progress st = 1
      \<and> groupPose st = \<lparr>position = (0, 0, 15), quaternion = 0, scale = (3, 3, 3)\<rparr>
      \<and> renderedPoses exactThree photo [fr1, fr2] st =
           [\<lparr>position = (0, 0, 15), quaternion = 0, scale = (3, 3, 3)\<rparr>,
            \<lparr>position = (0, 0, 15), quaternion = 0, scale = (3, 3, 3)\<rparr>]"
proof -
  define photo where "photo = \<lparr>photoId = ''photo-1'', url = ''photos/1.jpg'',
      photoPosition = (4, 0, 3), photoRotation = (0, - 8/10, 0)\<rparr>"
  define focused where "focused = initialGestureRef\<lparr>focusedId := Some ''photo-1''\<rparr>"
  define fr0 :: "real RenderFrame" where "fr0 = \<lparr>frameDelta = 1/10, frameMode = MOUSE,
      frameRef = focused, lockTarget = Some ((0, 0, 15), 0)\<rparr>"
  define st where "st = photoGroupFrame exactThree photo fr0 (initialPhotoGroup exactThree)"
  define fr1 :: "real RenderFrame" where "fr1 = \<lparr>frameDelta = 1/60, frameMode = MOUSE,
      frameRef = focused, lockTarget = Some ((1, 2, 14), 1/2)\<rparr>"
  define fr2 :: "real RenderFrame" where "fr2 = \<lparr>frameDelta = 3/10, frameMode = MOUSE,
      frameRef = focused\<lparr>dispersion := 7/10\<rparr>, lockTarget = None\<rparr>"
  define cached :: "real LockedState" where
    "cached = \<lparr>lockPos = (0, 0, 15), lockQuat = 0, lockScale = (3, 3, 3)\<rparr>"
  have st: "st = \<lparr>progress = 1, lockedState = Some cached,
                  groupPose = \<lparr>position = (0, 0, 15), quaternion = 0, scale = (3, 3, 3)\<rparr>\<rparr>"
    by (simp add: st_def fr0_def photo_def focused_def cached_def frame_eval)
  have reach: "99/100 \<le> progress st"
    "lockTarget fr0 \<noteq> None \<or> lockedState (initialPhotoGroup exactThree) \<noteq> None"
    by (simp_all add: st fr0_def)
  have first: "\<bar>(1 - 10 * frameDelta fr1) * (1 - progress st)\<bar> < 1/100"
    by (simp add: st)
  have later: "\<forall>fr \<in> set (fr1 # [fr2]). focusedId (frameRef fr) = Some (photoId photo)"
    by (simp add: fr1_def fr2_def focused_def photo_def)
  have mouse: "\<forall>fr \<in> set (fr1 # [fr2]). activeDispersionOf fr = 0"
    by (simp add: fr1_def fr2_def activeDispersionOf_def)
  have pose: "lockedPose exactThree photo 0 cached
                = \<lparr>position = (0, 0, 15), quaternion = 0, scale = (3, 3, 3)\<rparr>"
    by (simp add: lockedPose_def treeState_def interpolate_def exactThree_def cached_def
        photo_def setScalar_def)
  from locked_pose_stable[OF st_def reach first later] mouse
  have "renderedPoses exactThree photo (fr1 # [fr2]) st =
          replicate (Suc (length [fr2])) (lockedPose exactThree photo 0 cached)"
    by (auto simp: st)
  then have "renderedPoses exactThree photo [fr1, fr2] st =
           [\<lparr>position = (0, 0, 15), quaternion = 0, scale = (3, 3, 3)\<rparr>,
            \<lparr>position = (0, 0, 15), quaternion = 0, scale = (3, 3, 3)\<rparr>]"
    by (simp add: pose)
  then show ?thesis
    unfolding Let_def photo_def[symmetric] focused_def[symmetric] fr0_def[symmetric]
      st_def[symmetric] fr1_def[symmetric] fr2_def[symmetric]
    by (simp add: st)
qed

text \<open>
  The claim as stated fails, in mouse mode and with the camera at rest. A first frame of
  0.15 s takes the progress of the focused photo to 1.5 (at least 0.99, and the lock is
  cached); on the next two frames of 0.02 s the progress is 1.4 and then 1.32, and the
  rendered scale is 3.8 and then 3.64. And when a first frame of 0.099 s has taken the
  progress to 0.99, a frame of 0.25 s takes it to 1.015 and a frame of 0.02 s to 1.012:
  the rendered scale is 3.03 and then 3.024.
\<close>

theorem locked_pose_stable_counterexample:
  "let photo = \<lparr>photoId = ''photo-1'', url = ''photos/1.jpg'', photoPosition = (4, 0, 3),
                 photoRotation = (0, - 8/10, 0)\<rparr>;
       focused = initialGestureRef\<lparr>focusedId := Some ''photo-1''\<rparr>;
       slow = \<lparr>frameDelta = 15/100, frameMode = MOUSE, frameRef = focused,
               lockTarget = Some ((0, 0, 15), 0)\<rparr>;
       short = \<lparr>frameDelta = 1/50, frameMode = MOUSE, frameRef = focused,
                lockTarget = Some ((0, 0, 15), 0)\<rparr>;
       almost = \<lparr>frameDelta = 99/1000, frameMode = MOUSE, frameRef = focused,
                 lockTarget = Some ((0, 0, 15), 0)\<rparr>;
       long = \<lparr>frameDelta = 1/4, frameMode = MOUSE, frameRef = focused,
               lockTarget = Some ((0, 0, 15), 0)\<rparr>;
       over = photoGroupFrame exactThree photo slow (initialPhotoGroup exactThree);
       near = photoGroupFrame exactThree photo almost (initialPhotoGroup exactThree)
   in progress over = 3/2
      \<and> map scale (renderedPoses exactThree photo [short, short] over)
          = [(19/5, 19/5, 19/5), (91/25, 91/25, 91/25)]
      \<and> renderedPoses exactThree photo [short, short] over ! 0
          \<noteq> renderedPoses exactThree photo [short, short] over ! 1
      \<and> progress near = 99/100
      \<and> map scale (renderedPoses exactThree photo [long, short] near)
          = [(303/100, 303/100, 303/100), (378/125, 378/125, 378/125)]
      \<and> renderedPoses exactThree photo [long, short] near ! 0
          \<noteq> renderedPoses exactThree photo [long, short] near ! 1"
proof -
  define photo where "photo = \<lparr>photoId = ''photo-1'', url = ''photos/1.jpg'',
      photoPosition = (4, 0, 3), photoRotation = (0, - 8/10, 0)\<rparr>"
  define focused where "focused = initialGestureRef\<lparr>focusedId := Some ''photo-1''\<rparr>"
  define slow :: "real RenderFrame" where "slow = \<lparr>frameDelta = 15/100, frameMode = MOUSE,
      frameRef = focused, lockTarget = Some ((0, 0, 15), 0)\<rparr>"
  define short :: "real RenderFrame" where "short = \<lparr>frameDelta = 1/50, frameMode = MOUSE,
      frameRef = focused, lockTarget = Some ((0, 0, 15), 0)\<rparr>"
  define almost :: "real RenderFrame" where "almost = \<lparr>frameDelta = 99/1000,
      frameMode = MOUSE, frameRef = focused, lockTarget = Some ((0, 0, 15), 0)\<rparr>"
  define long :: "real RenderFrame" where "long = \<lparr>frameDelta = 1/4, frameMode = MOUSE,
      frameRef = focused, lockTarget = Some ((0, 0, 15), 0)\<rparr>"
  define over where
    "over = photoGroupFrame exactThree photo slow (initialPhotoGroup exactThree)"
  define near where
    "near = photoGroupFrame exactThree photo almost (initialPhotoGroup exactThree)"
  define over1 where "over1 = photoGroupFrame exactThree photo short over"
  define over2 where "over2 = photoGroupFrame exactThree photo short over1"
  define near1 where "near1 = photoGroupFrame exactThree photo long near"
  define near2 where "near2 = photoGroupFrame exactThree photo short near1"
  have over: "progress over = 3/2"
    "lockedState over = Some \<lparr>lockPos = (0, 0, 15), lockQuat = 0, lockScale = (3, 3, 3)\<rparr>"
    by (simp_all add: over_def slow_def photo_def focused_def frame_eval)
  have over1: "progress over1 = 7/5"
    "lockedState over1 = Some \<lparr>lockPos = (0, 0, 15), lockQuat = 0, lockScale = (3, 3, 3)\<rparr>"
    "scale (groupPose over1) = (19/5, 19/5, 19/5)"
    by (simp_all add: over1_def over short_def photo_def focused_def frame_eval)
  have over2: "scale (groupPose over2) = (91/25, 91/25, 91/25)"
    by (simp add: over2_def over1 short_def photo_def focused_def frame_eval)
  have near: "progress near = 99/100"
    "lockedState near = Some \<lparr>lockPos = (0, 0, 15), lockQuat = 0, lockScale = (3, 3, 3)\<rparr>"
    by (simp_all add: near_def almost_def photo_def focused_def frame_eval)
  have near1: "progress near1 = 203/200"
    "lockedState near1 = Some \<lparr>lockPos = (0, 0, 15), lockQuat = 0, lockScale = (3, 3, 3)\<rparr>"
    "scale (groupPose near1) = (303/100, 303/100, 303/100)"
    by (simp_all add: near1_def near long_def photo_def focused_def frame_eval)
  have near2: "scale (groupPose near2) = (378/125, 378/125, 378/125)"
    by (simp add: near2_def near1 short_def photo_def focused_def frame_eval)
  have po: "renderedPoses exactThree photo [short, short] over
              = [groupPose over1, groupPose over2]"
    by (simp add: over1_def over2_def)
  have pn: "renderedPoses exactThree photo [long, short] near
              = [groupPose near1, groupPose near2]"
    by (simp add: near1_def near2_def)
  have "groupPose over1 \<noteq> groupPose over2"
  proof
    assume "groupPose over1 = groupPose over2"
    then have "scale (groupPose over1) = scale (groupPose over2)" by simp
    then show False by (simp add: over1(3) over2)
  qed
  moreover have "groupPose near1 \<noteq> groupPose near2"
  proof
    assume "groupPose near1 = groupPose near2"
    then have "scale (groupPose near1) = scale (groupPose near2)" by simp
    then show False by (simp add: near1(3) near2)
  qed
  ultimately show ?thesis
    unfolding Let_def photo_def[symmetric] focused_def[symmetric] slow_def[symmetric]
      short_def[symmetric] almost_def[symmetric] long_def[symmetric]
      over_def[symmetric] near_def[symmetric] po pn
    by (simp add: over near over1(3) over2 near1(3) near2)
qed

section \<open>Scene rotation\<close>

lemma yawAfter_sum: "yawAfter mode gref deltas y = y + sceneSpeed mode gref * sum_list deltas"
  by (induction deltas arbitrary: y) (simp_all add: rotationStep_def algebra_simps)

lemma sceneSpeed_factors:
  "sceneSpeed mode gref =
     (if mode = GESTURE then rotation gref else 1/10)
     * (if truthyId (focusedId gref) then 1/20 else 1)
     * (if mode = GESTURE \<and> dispersion gref > 1/2 then 1/10 else 1)"
  by (cases mode) (simp_all add: sceneSpeed_def Let_def)

text \<open>
  C9, amended. Per render frame the scene yaw increases by \<open>speed * delta\<close>. In gesture
  mode the speed starts at the gesture rotation speed \<open>r\<close>; in mouse mode it starts at the
  constant 0.1, whatever \<open>r\<close> is. While a photo is focused the speed is multiplied by
  0.05, and in gesture mode while the dispersion exceeds 0.5 it is also multiplied by 0.1;
  the factors compose multiplicatively (both active in gesture mode gives \<open>r * 0.005\<close>).
  Over frames of total elapsed time \<open>t\<close> with the mode and the gesture state unchanged,
  the yaw advances by exactly the starting speed times \<open>t\<close> times the product of the
  active factors.
\<close>

theorem yaw_accumulation:
  "rotationStep mode gref delta y =
     y + (if mode = GESTURE then rotation gref else 1/10)
         * (if truthyId (focusedId gref) then 1/20 else 1)
         * (if mode = GESTURE \<and> dispersion gref > 1/2 then 1/10 else 1) * delta
   \<and> (mode = GESTURE \<and> truthyId (focusedId gref) \<and> dispersion gref > 1/2
        \<longrightarrow> sceneSpeed mode gref = rotation gref * (5/1000))
   \<and> yawAfter mode gref deltas y =
       y + (if mode = GESTURE then rotation gref else 1/10) * sum_list deltas
           * (if truthyId (focusedId gref) then 1/20 else 1)
           * (if mode = GESTURE \<and> dispersion gref > 1/2 then 1/10 else 1)"
proof -
  have frame: "rotationStep mode gref delta y = y + sceneSpeed mode gref * delta"
    by (simp add: rotationStep_def)
  have both: "sceneSpeed mode gref = rotation gref * (5/1000)"
    if "mode = GESTURE" "truthyId (focusedId gref)" "dispersion gref > 1/2"
    using that by (simp add: sceneSpeed_factors)
  show ?thesis
    unfolding frame yawAfter_sum using both by (simp add: sceneSpeed_factors)
qed

theorem yaw_accumulation_witness:
  "sceneSpeed GESTURE
     (initialGestureRef\<lparr>rotation := 2, dispersion := 8/10, focusedId := Some ''photo-3''\<rparr>)
     = 2 * (5/1000)
   \<and> yawAfter GESTURE
       (initialGestureRef\<lparr>rotation := 2, dispersion := 8/10, focusedId := Some ''photo-3''\<rparr>)
       [1/60, 1/30, 1/20] 1 = 1 + 2 * (1/10) * (5/1000)
   \<and> yawAfter GESTURE (initialGestureRef\<lparr>rotation := 2\<rparr>) [1/60, 1/30, 1/20] 1
       = 1 + 2 * (1/10)"
proof -
  have "truthyId (focusedId
          (initialGestureRef\<lparr>rotation := 2, dispersion := 8/10, focusedId := Some ''photo-3''\<rparr>))"
    "dispersion
       (initialGestureRef\<lparr>rotation := 2, dispersion := 8/10, focusedId := Some ''photo-3''\<rparr>)
       > 1/2"
    "\<not> truthyId (focusedId (initialGestureRef\<lparr>rotation := 2\<rparr>))"
    "\<not> dispersion (initialGestureRef\<lparr>rotation := 2\<rparr>) > 1/2"
    by (simp_all add: initialGestureRef_def)
  with yaw_accumulation[of GESTURE
      "initialGestureRef\<lparr>rotation := 2, dispersion := 8/10, focusedId := Some ''photo-3''\<rparr>"
      0 1 "[1/60, 1/30, 1/20]"]
    yaw_accumulation[of GESTURE "initialGestureRef\<lparr>rotation := 2\<rparr>" 0 1 "[1/60, 1/30, 1/20]"]
  show ?thesis by simp
qed

text \<open>
  The claim as stated fails in mouse mode: with the gesture rotation speed 2 left in
  \<open>gestureRef.current\<close> and nothing focused, a frame of one second advances the yaw by
  0.1 and not by 2.
\<close>

theorem yaw_accumulation_counterexample:
  "rotation (initialGestureRef\<lparr>rotation := 2\<rparr>) = 2
   \<and> \<not> truthyId (focusedId (initialGestureRef\<lparr>rotation := 2\<rparr>))
   \<and> rotationStep MOUSE (initialGestureRef\<lparr>rotation := 2\<rparr>) 1 0 = 1/10
   \<and> rotationStep MOUSE (initialGestureRef\<lparr>rotation := 2\<rparr>) 1 0
       \<noteq> 0 + rotation (initialGestureRef\<lparr>rotation := 2\<rparr>) * 1"
  by (simp add: rotationStep_def sceneSpeed_def initialGestureRef_def)

section \<open>Selection and focus\<close>

lemma selectionStep_no_hand:
  "\<not> isHandDetected gref \<Longrightarrow> selectionStep mode photos rnd gref = Inr gref"
  by (simp add: selectionStep_def)

lemma focusedId_handleGestureUpdate:
  "focusedId (handleGestureUpdate gref data) = focusedId gref"
  by (simp add: handleGestureUpdate_def)

text \<open>A render frame sets a new, truthy \<open>focusedId\<close> only when \<open>selectFires\<close> holds.\<close>

lemma selectionStep_selects:
  assumes "selectionStep mode photos rnd gref = Inr gref'"
    and "truthyId (focusedId gref')" "focusedId gref' \<noteq> focusedId gref"
  shows "selectFires mode gref"
  using assms by (auto simp: selectionStep_def selectFires_def Let_def split: if_splits)

lemma selectionStep_clears:
  assumes "selectionStep mode photos rnd gref = Inr gref'"
    and "focusedId gref \<noteq> None" "focusedId gref' = None"
  shows "mode = GESTURE \<and> isHandDetected gref
         \<and> (\<not> truthyFlag (isPinching gref) \<or> dispersion gref \<le> 3/10)"
  using assms by (auto simp: selectionStep_def Let_def split: if_splits)

text \<open>
  C10. In gesture mode, a render frame on which \<open>isHandDetected\<close> is false leaves
  \<open>focusedId\<close> unchanged, and so does every gesture update (the hand-lost signal
  included): losing the hand does not release the focus. An event clears a set
  \<open>focusedId\<close> only if it is a render frame in gesture mode with a detected hand on which
  the pinch has ended or the dispersion is 0.3 or less, a click in mouse mode on the
  focused photo, or a pointer-missed event.
\<close>

theorem hand_lost_keeps_focus:
  "(interactionMode st = GESTURE \<and> \<not> isHandDetected (gestureRef st) \<longrightarrow>
      selectionStep (interactionMode st) photos rnd (gestureRef st) = Inr (gestureRef st)
      \<and> (\<exists>st'. appStep photos (RenderTick delta rnd) st = Inr st'
                \<and> focusedId (gestureRef st') = focusedId (gestureRef st)))
   \<and> focusedId (handleGestureUpdate (gestureRef st) data) = focusedId (gestureRef st)
   \<and> (appStep photos ev st = Inr st1 \<and> focusedId (gestureRef st) \<noteq> None
        \<and> focusedId (gestureRef st1) = None \<longrightarrow>
        (\<exists>delta' rnd'. ev = RenderTick delta' rnd' \<and> interactionMode st = GESTURE
              \<and> isHandDetected (gestureRef st)
              \<and> (\<not> truthyFlag (isPinching (gestureRef st))
                   \<or> dispersion (gestureRef st) \<le> 3/10))
        \<or> (\<exists>pid. ev = PhotoClick pid \<and> interactionMode st = MOUSE
              \<and> focusedId (gestureRef st) = Some pid)
        \<or> ev = PointerMissed)"
proof -
  have a: "interactionMode st = GESTURE \<and> \<not> isHandDetected (gestureRef st) \<longrightarrow>
      selectionStep (interactionMode st) photos rnd (gestureRef st) = Inr (gestureRef st)
      \<and> (\<exists>st'. appStep photos (RenderTick delta rnd) st = Inr st'
                \<and> focusedId (gestureRef st') = focusedId (gestureRef st))"
    by (simp add: selectionStep_no_hand Let_def)
  have c: "(\<exists>delta' rnd'. ev = RenderTick delta' rnd' \<and> interactionMode st = GESTURE
              \<and> isHandDetected (gestureRef st)
              \<and> (\<not> truthyFlag (isPinching (gestureRef st))
                   \<or> dispersion (gestureRef st) \<le> 3/10))
        \<or> (\<exists>pid. ev = PhotoClick pid \<and> interactionMode st = MOUSE
              \<and> focusedId (gestureRef st) = Some pid)
        \<or> ev = PointerMissed"
    if h: "appStep photos ev st = Inr st1" "focusedId (gestureRef st) \<noteq> None"
        "focusedId (gestureRef st1) = None"
  proof (cases ev)
    case (RenderTick d r)
    from h(1) obtain g where
      g: "selectionStep (interactionMode st) photos r (gestureRef st) = Inr g"
      and "st1 = st\<lparr>gestureRef := g,
             sceneYaw := rotationStep (interactionMode st) (gestureRef st) d (sceneYaw st)\<rparr>"
      unfolding RenderTick by (auto simp: Let_def split: sum.splits)
    then have "focusedId g = None" using h(3) by simp
    from selectionStep_clears[OF g h(2) this] RenderTick show ?thesis by simp
  next
    case (GestureUpdate d)
    then show ?thesis using h by (auto simp: focusedId_handleGestureUpdate)
  next
    case (PhotoClick pid)
    then show ?thesis using h by (auto split: if_splits)
  next
    case PointerMissed
    then show ?thesis by simp
  next
    case (SetMode m)
    then show ?thesis using h by auto
  qed
  show ?thesis using a c focusedId_handleGestureUpdate by (simp del: appStep.simps)
qed

theorem hand_lost_keeps_focus_witness:
  "let lost = \<lparr>interactionMode = GESTURE,
               gestureRef = \<lparr>rotation = 0, dispersion = 0, isHandDetected = False,
                             cursor = Some (0, 0), isPinching = Some False,
                             focusedId = Some ''photo-2''\<rparr>,
               sceneYaw = 1\<rparr>;
       released = \<lparr>interactionMode = GESTURE,
               gestureRef = \<lparr>rotation = 0, dispersion = 8/10, isHandDetected = True,
                             cursor = Some (0, 0), isPinching = Some False,
                             focusedId = Some ''photo-2''\<rparr>,
               sceneYaw = 1\<rparr>
   in appStep [] (RenderTick (1/60) (1/2)) lost = Inr lost
      \<and> focusedId (gestureRef lost) = Some ''photo-2''
      \<and> appStep [] (RenderTick (1/60) (1/2)) released
          = Inr (released\<lparr>gestureRef := (gestureRef released)\<lparr>focusedId := None\<rparr>\<rparr>)
      \<and> isHandDetected (gestureRef released) \<and> \<not> truthyFlag (isPinching (gestureRef released))"
proof -
  define lost where "lost = \<lparr>interactionMode = GESTURE,
               gestureRef = \<lparr>rotation = 0, dispersion = 0, isHandDetected = False,
                             cursor = Some (0, 0), isPinching = Some False,
                             focusedId = Some ''photo-2''\<rparr>,
               sceneYaw = 1\<rparr>"
  define released where "released = \<lparr>interactionMode = GESTURE,
               gestureRef = \<lparr>rotation = 0, dispersion = 8/10, isHandDetected = True,
                             cursor = Some (0, 0), isPinching = Some False,
                             focusedId = Some ''photo-2''\<rparr>,
               sceneYaw = 1\<rparr>"
  define cleared where
    "cleared = released\<lparr>gestureRef := (gestureRef released)\<lparr>focusedId := None\<rparr>\<rparr>"
  have l: "appStep [] (RenderTick (1/60) (1/2)) lost = Inr lost"
    "focusedId (gestureRef lost) = Some ''photo-2''"
    by (simp_all add: lost_def selectionStep_def rotationStep_def sceneSpeed_def Let_def)
  have r: "appStep [] (RenderTick (1/60) (1/2)) released = Inr cleared"
    "focusedId (gestureRef released) \<noteq> None" "focusedId (gestureRef cleared) = None"
    by (simp_all add: released_def cleared_def selectionStep_def rotationStep_def
        sceneSpeed_def Let_def)
  from hand_lost_keeps_focus[where st = released and photos = "[]"
      and ev = "RenderTick (1/60) (1/2)" and ?st1.0 = cleared and data = handLost
      and rnd = 0 and delta = 0] r
  have "isHandDetected (gestureRef released)
        \<and> (\<not> truthyFlag (isPinching (gestureRef released))
             \<or> dispersion (gestureRef released) \<le> 3/10)"
    by simp
  moreover have "\<not> dispersion (gestureRef released) \<le> 3/10" by (simp add: released_def)
  ultimately show ?thesis
    unfolding Let_def lost_def[symmetric] released_def[symmetric] cleared_def[symmetric]
    using l r by simp
qed











section \<open>The gesture controller\<close>

lemma dispersionOf_clamp: "dispersionOf d = clamp_spec ((d - 15/100) / (2/10)) 0 1"
  by (simp add: dispersionOf_def clamp_spec_def min_def max_def)

lemma interpretHand_dispersion:
  assumes "interpretHand hand = Some g"
  shows "dispersion g = dispersionOf (landmarkDist (hand ! 12) (hand ! 0))"
  using assms
  by (auto simp: interpretHand_def landmarkAt_def Let_def split: option.splits if_splits)

lemma sqrt_quarter: "sqrt (1/4) = 1/2"
  by (rule real_sqrt_unique) (simp_all add: power2_eq_square)

text \<open>
  C6. Dispersion remap. For every distance \<open>d\<close> the remapped dispersion equals
  \<open>clamp((d - 0.15) / 0.2, 0, 1)\<close>; it is 0 at 0.15 and at 0.10 and 1 at 0.35 and at
  0.50; and the dispersion of every signal the interpreter computes from a hand is this
  value at the distance between the middle fingertip (landmark 12) and the wrist
  (landmark 0).
\<close>

theorem dispersion_remap:
  "dispersionOf d = clamp_spec ((d - 15/100) / (2/10)) 0 1
   \<and> dispersionOf (15/100) = 0 \<and> dispersionOf (10/100) = 0
   \<and> dispersionOf (35/100) = 1 \<and> dispersionOf (50/100) = 1
   \<and> (interpretHand hand = Some g \<longrightarrow>
        dispersion g = clamp_spec ((landmarkDist (hand ! 12) (hand ! 0) - 15/100) / (2/10)) 0 1)"
proof -
  have v: "dispersionOf (15/100) = 0 \<and> dispersionOf (10/100) = 0
   \<and> dispersionOf (35/100) = 1 \<and> dispersionOf (50/100) = 1"
    by (simp add: dispersionOf_def)
  show ?thesis using v dispersionOf_clamp interpretHand_dispersion by metis
qed

theorem dispersion_remap_witness:
  "let hand = (replicate 21 \<lparr>lx = 1/2, ly = 4/5\<rparr>)
                [12 := \<lparr>lx = 1/2, ly = 3/10\<rparr>, 8 := \<lparr>lx = 1/2, ly = 1/2\<rparr>,
                 4 := \<lparr>lx = 1/2, ly = 1\<rparr>];
       g = \<lparr>rotation = 0, dispersion = 1, isHandDetected = True, cursor = Some (0, 0),
            isPinching = Some False\<rparr>
   in interpretHand hand = Some g
      \<and> landmarkDist (hand ! 12) (hand ! 0) = 1/2
      \<and> dispersion g = clamp_spec ((landmarkDist (hand ! 12) (hand ! 0) - 15/100) / (2/10)) 0 1"
proof -
  define hand where "hand = (replicate 21 \<lparr>lx = 1/2, ly = 4/5\<rparr>)
                [12 := \<lparr>lx = 1/2, ly = 3/10\<rparr>, 8 := \<lparr>lx = 1/2, ly = 1/2\<rparr>,
                 4 := \<lparr>lx = 1/2, ly = (1::real)\<rparr>]"
  define g where "g = \<lparr>rotation = 0, dispersion = 1, isHandDetected = True,
      cursor = Some (0, 0), isPinching = Some False\<rparr>"
  have n: "hand ! 0 = \<lparr>lx = 1/2, ly = 4/5\<rparr>" "hand ! 12 = \<lparr>lx = 1/2, ly = 3/10\<rparr>"
    "hand ! 8 = \<lparr>lx = 1/2, ly = 1/2\<rparr>" "hand ! 4 = \<lparr>lx = 1/2, ly = 1\<rparr>" "length hand = 21"
    by (simp_all add: hand_def)
  have d: "landmarkDist (hand ! 12) (hand ! 0) = 1/2" "landmarkDist (hand ! 4) (hand ! 8) = 1/2"
    by (simp_all add: n landmarkDist_def power2_eq_square sqrt_quarter)
  have i: "interpretHand hand = Some g"
    by (simp add: interpretHand_def landmarkAt_def n d[unfolded n] dispersionOf_def g_def)
  from dispersion_remap[of 0 hand g] i
  have c: "dispersion g
             = clamp_spec ((landmarkDist (hand ! 12) (hand ! 0) - 15/100) / (2/10)) 0 1"
    by blast
  show ?thesis unfolding Let_def hand_def[symmetric] g_def[symmetric]
    using i d(1) c by (intro conjI)
qed

text \<open>
  C7. Hand-lost reset. When a live tick processes a new, valid video frame and the detector
  reports no hand (\<open>landmarks\<close> undefined or empty), the controller emits the signal
  with \<open>isHandDetected = false\<close>, \<open>dispersion = 0\<close>, \<open>rotation = 0\<close>,
  \<open>isPinching = false\<close> and the cursor reset to (0, 0); once published,
  \<open>gestureRef.current\<close> holds these values whatever it held before, and \<open>focusedId\<close> is
  kept. The legacy controller emits \<open>isHandDetected = false\<close>, \<open>dispersion = 0\<close> and the
  idle spin \<open>rotation = 0.1\<close>; its signal has no pinch and no cursor.
\<close>

theorem hand_lost_reset:
  assumes "isRunning st" "hasLandmarker env" "hasCanvas env" "\<not> degenerate (video env)"
    and "currentTime (video env) \<noteq> lastVideoTime st"
    and "detection env = DetectResult None \<or> detection env = DetectResult (Some [])"
  shows "emitted (predictWebcam env st) =
           Some \<lparr>rotation = 0, dispersion = 0, isHandDetected = False, cursor = Some (0, 0),
                 isPinching = Some False\<rparr>
       \<and> publish gref (predictWebcam env st) =
           \<lparr>rotation = 0, dispersion = 0, isHandDetected = False, cursor = Some (0, 0),
            isPinching = Some False, focusedId = focusedId gref\<rparr>
       \<and> emitted_legacy (predictWebcam_legacy env (lastVideoTime st)) =
           Some \<lparr>rotation = 1/10, dispersion = 0, isHandDetected = False, cursor = None,
                 isPinching = None\<rparr>"
  using assms
  by (auto simp: predictWebcam_def predictWebcam_legacy_def publish_def handLost_def
      handLost_legacy_def handleGestureUpdate_def Let_def)

theorem hand_lost_reset_witness:
  "let env = \<lparr>hasLandmarker = True, hasCanvas = True,
              video = \<lparr>readyState = 4, videoWidth = 640, videoHeight = 480, currentTime = 3/2\<rparr>,
              detection = DetectResult (Some [])\<rparr>;
       st = \<lparr>isRunning = True, lastVideoTime = 7/5\<rparr>;
       gref = \<lparr>rotation = 1, dispersion = 8/10, isHandDetected = True,
               cursor = Some (3/10, - 2/10), isPinching = Some True,
               focusedId = Some ''photo-2''\<rparr>
   in emitted (predictWebcam env st) =
        Some \<lparr>rotation = 0, dispersion = 0, isHandDetected = False, cursor = Some (0, 0),
              isPinching = Some False\<rparr>
      \<and> publish gref (predictWebcam env st) =
        \<lparr>rotation = 0, dispersion = 0, isHandDetected = False, cursor = Some (0, 0),
         isPinching = Some False, focusedId = Some ''photo-2''\<rparr>"
proof -
  define env where "env = \<lparr>hasLandmarker = True, hasCanvas = True,
      video = \<lparr>readyState = 4, videoWidth = 640, videoHeight = 480, currentTime = 3/2\<rparr>,
      detection = DetectResult (Some [])\<rparr>"
  define st where "st = \<lparr>isRunning = True, lastVideoTime = 7/5\<rparr>"
  define gref where "gref = \<lparr>rotation = 1, dispersion = 8/10, isHandDetected = True,
      cursor = Some (3/10, - 2/10), isPinching = Some True, focusedId = Some ''photo-2''\<rparr>"
  have h: "isRunning st" "hasLandmarker env" "hasCanvas env" "\<not> degenerate (video env)"
    "currentTime (video env) \<noteq> lastVideoTime st"
    "detection env = DetectResult None \<or> detection env = DetectResult (Some [])"
    by (simp_all add: env_def st_def degenerate_def)
  from hand_lost_reset[OF h, of gref]
  show ?thesis
    unfolding Let_def env_def[symmetric] st_def[symmetric] gref_def[symmetric]
    by (simp add: gref_def)
qed

text \<open>
  C8. Degenerate frames and detector failures are skipped. On a live tick, if the video
  frame is degenerate (\<open>readyState\<close> below 2, or a width or height below 1) or the
  detection call throws, \<open>onUpdate\<close> is not called, so the published signal is exactly
  what it was, and the tick is scheduled again.
\<close>

theorem degenerate_frame_skipped:
  assumes "isRunning st"
    and "readyState (video env) < 2 \<or> videoWidth (video env) < 1 \<or> videoHeight (video env) < 1
         \<or> detection env = DetectThrows"
  shows "emitted (predictWebcam env st) = None
       \<and> publish gref (predictWebcam env st) = gref
       \<and> rescheduled (predictWebcam env st)"
  using assms
  by (auto simp: predictWebcam_def publish_def degenerate_def Let_def)

theorem degenerate_frame_skipped_witness:
  "let zeroArea = \<lparr>hasLandmarker = True, hasCanvas = True,
              video = \<lparr>readyState = 4, videoWidth = 0, videoHeight = 0, currentTime = 3/2\<rparr>,
              detection = DetectResult (Some [])\<rparr>;
       throwing = \<lparr>hasLandmarker = True, hasCanvas = True,
              video = \<lparr>readyState = 4, videoWidth = 640, videoHeight = 480, currentTime = 3/2\<rparr>,
              detection = DetectThrows\<rparr>;
       st = \<lparr>isRunning = True, lastVideoTime = 7/5\<rparr>;
       gref = \<lparr>rotation = 1, dispersion = 8/10, isHandDetected = True,
               cursor = Some (3/10, - 2/10), isPinching = Some True,
               focusedId = Some ''photo-2''\<rparr>
   in emitted (predictWebcam zeroArea st) = None
      \<and> publish gref (predictWebcam zeroArea st) = gref
      \<and> rescheduled (predictWebcam zeroArea st)
      \<and> emitted (predictWebcam throwing st) = None
      \<and> publish gref (predictWebcam throwing st) = gref
      \<and> rescheduled (predictWebcam throwing st)"
proof -
  define zeroArea where "zeroArea = \<lparr>hasLandmarker = True, hasCanvas = True,
      video = \<lparr>readyState = 4, videoWidth = 0, videoHeight = 0, currentTime = 3/2\<rparr>,
      detection = DetectResult (Some [])\<rparr>"
  define throwing where "throwing = \<lparr>hasLandmarker = True, hasCanvas = True,
      video = \<lparr>readyState = 4, videoWidth = 640, videoHeight = 480, currentTime = 3/2\<rparr>,
      detection = DetectThrows\<rparr>"
  define st where "st = \<lparr>isRunning = True, lastVideoTime = 7/5\<rparr>"
  define gref where "gref = \<lparr>rotation = 1, dispersion = 8/10, isHandDetected = True,
      cursor = Some (3/10, - 2/10), isPinching = Some True, focusedId = Some ''photo-2''\<rparr>"
  have r: "isRunning st" by (simp add: st_def)
  have z: "readyState (video zeroArea) < 2 \<or> videoWidth (video zeroArea) < 1
           \<or> videoHeight (video zeroArea) < 1 \<or> detection zeroArea = DetectThrows"
    by (simp add: zeroArea_def)
  have t: "readyState (video throwing) < 2 \<or> videoWidth (video throwing) < 1
           \<or> videoHeight (video throwing) < 1 \<or> detection throwing = DetectThrows"
    by (simp add: throwing_def)
  from degenerate_frame_skipped[OF r z, of gref] degenerate_frame_skipped[OF r t, of gref]
  show ?thesis
    unfolding Let_def zeroArea_def[symmetric] throwing_def[symmetric] st_def[symmetric]
      gref_def[symmetric]
    by simp
qed

end
